theory Spec2Isabelle
  imports Complex_Main "HOL-Library.Monad_Syntax"
begin

section \<open>The expect session (cloudshell/cli/session/expect_session.py)\<close>

text \<open>
  The session talks to a device through a transport it does not implement itself:
  \<^verbatim>\<open>_receive\<close>, \<^verbatim>\<open>_send\<close>, \<^verbatim>\<open>disconnect\<close>, \<^verbatim>\<open>_initialize_session\<close> and
  \<^verbatim>\<open>_connect_actions\<close> are abstract methods, and the regular expressions, the clock,
  \<^verbatim>\<open>normalize_buffer\<close> and the action map live in other modules.  All of them are
  parameters of the model, collected in the record \<open>env\<close>.  They act on a state \<open>'w\<close>
  (the device, the socket, the clock, whatever an action callback touches); the fields
  that \<^verbatim>\<open>ExpectSession.__init__\<close> declares are the record \<open>expect_session\<close>, which only
  the methods of this file write.  Calls of the logger are left out.
\<close>

subsection \<open>Exceptions\<close>

text \<open>
  The exception classes imported from \<^verbatim>\<open>session_exceptions\<close>, with their message.
  \<open>SessionLoopLimitException\<close> carries the number that the source formats into its
  message.  \<open>OtherException\<close> stands for whatever else a collaborator raises.
\<close>

datatype exc =
    SessionReadTimeout
  | SessionReadEmptyData
  | ExpectedSessionException string
  | SessionLoopLimitException int
  | CommandExecutionException string
  | OtherException string

subsection \<open>The session object and its collaborators\<close>

record expect_session =
  self_new_line :: string
  self_timeout :: rat
  self_max_loop_retries :: int
  self_empty_loop_timeout :: rat
  self_loop_detector_max_action_loops :: int
  self_loop_detector_max_combination_length :: int
  self_clear_buffer_timeout :: rat
  self_reconnect_timeout :: rat
  self_active :: bool
  self_command_patterns :: "(string \<times> string) list"

text \<open>\<^verbatim>\<open>ExpectSession.__init__\<close> with its default arguments.\<close>

definition init_session :: expect_session where
  "init_session =
     \<lparr> self_new_line = [CHR 0x0D],
       self_timeout = 30,
       self_max_loop_retries = 20,
       self_empty_loop_timeout = 1 / 2,
       self_loop_detector_max_action_loops = 3,
       self_loop_detector_max_combination_length = 4,
       self_clear_buffer_timeout = 1 / 10,
       self_reconnect_timeout = 30,
       self_active = False,
       self_command_patterns = [] \<rparr>"

datatype re_flag = MULTILINE | DOTALL

text \<open>
  An action map is used through its method \<^verbatim>\<open>process\<close> only: given the output, the flag
  \<^verbatim>\<open>check_action_loop_detector\<close> and the loop detector, it runs the reactions of the
  matching rules on the session and tells whether a rule matched, or raises.
\<close>

type_synonym ('d, 'w) action_map =
  "string \<Rightarrow> bool \<Rightarrow> 'd \<Rightarrow> 'w \<Rightarrow> (exc + bool) \<times> 'd \<times> 'w"

record ('d, 'w) env =
  receive :: "rat \<Rightarrow> 'w \<Rightarrow> (exc + string) \<times> 'w"
  send :: "string \<Rightarrow> 'w \<Rightarrow> (exc + unit) \<times> 'w"
  disconnect :: "'w \<Rightarrow> (exc + unit) \<times> 'w"
  initialize_session :: "string \<Rightarrow> 'w \<Rightarrow> (exc + unit) \<times> 'w"
  connect_actions :: "string \<Rightarrow> 'w \<Rightarrow> (exc + unit) \<times> 'w"
  time_time :: "'w \<Rightarrow> rat \<times> 'w"
  time_sleep :: "rat \<Rightarrow> 'w \<Rightarrow> 'w"
  re_search :: "string \<Rightarrow> string \<Rightarrow> re_flag list \<Rightarrow> string option"
  re_sub :: "string \<Rightarrow> string \<Rightarrow> string \<Rightarrow> nat \<Rightarrow> re_flag list \<Rightarrow> exc + string"
  re_escape :: "string \<Rightarrow> string"
  normalize_buffer :: "string \<Rightarrow> string"
  ActionLoopDetector :: "int \<Rightarrow> int \<Rightarrow> 'd"

text \<open>
  \<open>re_search pattern string flags\<close> is the text of the match of \<^verbatim>\<open>re.search\<close>, or
  \<open>None\<close>; \<open>re_sub pattern repl string count flags\<close> is \<^verbatim>\<open>re.sub\<close> (a count of 0
  replaces every match), which returns the new string or raises \<^verbatim>\<open>re.error\<close>.  Python's
  \<^verbatim>\<open>x or d\<close> on a number that may be \<^verbatim>\<open>None\<close>:
\<close>

definition or_default :: "'a::zero option \<Rightarrow> 'a \<Rightarrow> 'a" where
  "or_default x d = (case x of None \<Rightarrow> d | Some v \<Rightarrow> if v = 0 then d else v)"

definition is_read_signal :: "exc \<Rightarrow> bool" where
  "is_read_signal e \<longleftrightarrow> e = SessionReadTimeout \<or> e = SessionReadEmptyData"

subsection \<open>\<^verbatim>\<open>set_active\<close>, \<^verbatim>\<open>active\<close>, \<^verbatim>\<open>connect\<close>\<close>

definition set_active :: "expect_session \<Rightarrow> bool \<Rightarrow> expect_session" where
  "set_active s state = s\<lparr>self_active := state\<rparr>"

definition active :: "expect_session \<Rightarrow> bool" where
  "active s = self_active s"

text \<open>
  \<^verbatim>\<open>connect\<close>: the two hooks and \<^verbatim>\<open>set_active(True)\<close> inside \<^verbatim>\<open>try\<close>; the bare
  \<^verbatim>\<open>except\<close> calls \<^verbatim>\<open>disconnect\<close> and re-raises.  An exception of \<^verbatim>\<open>disconnect\<close>
  itself leaves the handler in place of the one being handled.
\<close>

definition connect_failed ::
  "('d, 'w) env \<Rightarrow> exc \<Rightarrow> expect_session \<times> 'w \<Rightarrow> (exc + unit) \<times> expect_session \<times> 'w" where
  "connect_failed E e = (\<lambda>(s, w).
     (case disconnect E w of
        (Inl e', w') \<Rightarrow> (Inl e', s, w')
      | (Inr _, w') \<Rightarrow> (Inl e, s, w')))"

definition connect ::
  "('d, 'w) env \<Rightarrow> string \<Rightarrow> expect_session \<times> 'w \<Rightarrow> (exc + unit) \<times> expect_session \<times> 'w" where
  "connect E prompt = (\<lambda>(s, w).
     (case initialize_session E prompt w of
        (Inl e, w1) \<Rightarrow> connect_failed E e (s, w1)
      | (Inr _, w1) \<Rightarrow>
          (case connect_actions E prompt w1 of
             (Inl e, w2) \<Rightarrow> connect_failed E e (s, w2)
           | (Inr _, w2) \<Rightarrow> (Inr (), set_active s True, w2))))"

subsection \<open>Reading: \<^verbatim>\<open>_clear_buffer\<close>, \<^verbatim>\<open>send_line\<close>, \<^verbatim>\<open>_receive_all\<close>\<close>

text \<open>
  \<^verbatim>\<open>_clear_buffer\<close> reads until a read gives nothing.  The loop has no bound of its own:
  on a transport that always has data it does not return, which is the value \<open>None\<close>.
\<close>

partial_function (option) clear_buffer_loop ::
  "('d, 'w) env \<Rightarrow> rat \<Rightarrow> string \<Rightarrow> 'w \<Rightarrow> ((exc + string) \<times> 'w) option" where
  "clear_buffer_loop E tmo out w =
     (case receive E tmo w of
        (Inl e, w1) \<Rightarrow>
          if is_read_signal e then Some (Inr out, w1) else Some (Inl e, w1)
      | (Inr read_buffer, w1) \<Rightarrow>
          if read_buffer \<noteq> [] then clear_buffer_loop E tmo (out @ read_buffer) w1
          else Some (Inr out, w1))"

declare clear_buffer_loop.simps [code]

definition clear_buffer ::
  "('d, 'w) env \<Rightarrow> rat \<Rightarrow> 'w \<Rightarrow> ((exc + string) \<times> 'w) option" where
  "clear_buffer E tmo w = clear_buffer_loop E tmo [] w"

definition send_line ::
  "('d, 'w) env \<Rightarrow> expect_session \<Rightarrow> string \<Rightarrow> 'w \<Rightarrow> (exc + unit) \<times> 'w" where
  "send_line E s command w = send E (command @ self_new_line s) w"

text \<open>
  \<^verbatim>\<open>_receive_all\<close>: reads of a tenth of a second are appended to the buffer; a read
  timeout or an empty read ends the call when the buffer holds something, and raises
  \<open>ExpectedSessionException\<close> when it holds nothing and the wall-clock timeout has
  passed.  Any other exception of the transport propagates.
\<close>

partial_function (option) receive_all_loop ::
  "('d, 'w) env \<Rightarrow> rat \<Rightarrow> rat \<Rightarrow> string \<Rightarrow> 'w \<Rightarrow> ((exc + string) \<times> 'w) option" where
  "receive_all_loop E tmo start_time read_buffer w =
     (case receive E (1 / 10) w of
        (Inr data, w1) \<Rightarrow> receive_all_loop E tmo start_time (read_buffer @ data) w1
      | (Inl e, w1) \<Rightarrow>
          if is_read_signal e then
            if read_buffer \<noteq> [] then Some (Inr read_buffer, w1)
            else
              (case time_time E w1 of
                 (now, w2) \<Rightarrow>
                   if now - start_time > tmo
                   then Some (Inl (ExpectedSessionException ''Socket closed by timeout''), w2)
                   else receive_all_loop E tmo start_time read_buffer w2)
          else Some (Inl e, w1))"

declare receive_all_loop.simps [code]

definition receive_all ::
  "('d, 'w) env \<Rightarrow> expect_session \<Rightarrow> rat option \<Rightarrow> 'w \<Rightarrow> ((exc + string) \<times> 'w) option" where
  "receive_all E s tmo w =
     (case time_time E w of
        (start_time, w0) \<Rightarrow>
          receive_all_loop E (or_default tmo (self_timeout s)) start_time [] w0)"

subsection \<open>\<^verbatim>\<open>_generate_command_pattern\<close>, \<^verbatim>\<open>match_prompt\<close>\<close>

text \<open>
  The pattern of a command's echo is \<^verbatim>\<open>'\s*' + re.sub(r'\\\s+', '\s+', re.escape(command)) + '\s*'\<close>,
  computed when the command is not yet a key of \<^verbatim>\<open>_command_patterns\<close> and stored there.
  When \<^verbatim>\<open>re.sub\<close> raises, the exception leaves the method before the assignment and the
  dictionary is as it was.  The dictionary is the list of its items, in the order of
  their insertion.
\<close>

definition backslash :: char where
  "backslash = CHR 0x5C"

definition generate_command_pattern ::
  "('d, 'w) env \<Rightarrow> expect_session \<Rightarrow> string \<Rightarrow> exc + string \<times> expect_session" where
  "generate_command_pattern E s command =
     (case map_of (self_command_patterns s) command of
        Some pattern \<Rightarrow> Inr (pattern, s)
      | None \<Rightarrow>
          (case re_sub E (backslash # backslash # backslash # ''s+'') (backslash # ''s+'')
                  (re_escape E command) 0 [] of
             Inl e \<Rightarrow> Inl e
           | Inr escaped \<Rightarrow>
               (let pattern = (backslash # ''s*'') @ escaped @ (backslash # ''s*'')
                in Inr (pattern,
                        s\<lparr>self_command_patterns :=
                            self_command_patterns s @ [(command, pattern)]\<rparr>))))"

definition match_prompt :: "('d, 'w) env \<Rightarrow> string \<Rightarrow> string \<Rightarrow> bool" where
  "match_prompt E prompt match_string \<longleftrightarrow> re_search E prompt match_string [DOTALL] \<noteq> None"

subsection \<open>The error map\<close>

text \<open>
  Modelled from the spec: the module \<^verbatim>\<open>cloudshell.cli.service.error_map\<close> is not at hand.
  The spec describes an error map as an "ordered set of (pattern, error-kind) rules
  evaluated once against final command output", and its use in \<^verbatim>\<open>hardware_expect\<close> as
  "if any error pattern matches, fail with \<^verbatim>\<open>CommandExecutionError\<close> carrying the matched
  text".  So an error map is the list of its rules, and \<open>error_map_process\<close> raises for
  the first rule whose pattern is found in the output; \<^verbatim>\<open>ErrorMap()\<close> has no rule.
\<close>

type_synonym error_map = "(string \<times> string) list"

fun error_map_process :: "('d, 'w) env \<Rightarrow> error_map \<Rightarrow> string \<Rightarrow> exc option" where
  "error_map_process E [] output = None"
| "error_map_process E ((pattern, kind) # rules) output =
     (case re_search E pattern output [] of
        Some matched \<Rightarrow> Some (CommandExecutionException matched)
      | None \<Rightarrow> error_map_process E rules output)"

text \<open>
  Modelled from the spec: the module \<^verbatim>\<open>cloudshell.cli.service.action_map\<close> is not at hand
  either.  \<^verbatim>\<open>ActionMap()\<close>, the default of \<^verbatim>\<open>hardware_expect\<close>, has no rule: nothing
  matches and no reaction runs.
\<close>

definition empty_action_map :: "('d, 'w) action_map" where
  "empty_action_map output check_action_loop_detector d w = (Inr False, d, w)"

subsection \<open>\<^verbatim>\<open>hardware_expect\<close>\<close>

text \<open>The arguments of a call, after the four defaults of lines 203 to 206.\<close>

record ('d, 'w) expect_args =
  arg_command :: "string option"
  arg_expected_string :: string
  arg_action_map :: "('d, 'w) action_map"
  arg_error_map :: error_map
  arg_timeout :: "rat option"
  arg_retries :: int
  arg_check_action_loop_detector :: bool
  arg_empty_loop_timeout :: rat

text \<open>The local variables of the loop, the session and the state of the world.\<close>

record ('d, 'w) loop_state =
  output_list :: "string list"
  output_str :: string
  retries_count :: int
  is_correct_exit :: bool
  remove_command_from_output :: bool
  action_loop_detector :: 'd
  sess :: expect_session
  world :: 'w

text \<open>
  Lines 241 to 245: when a command was given (\<^verbatim>\<open>if command\<close>: neither \<^verbatim>\<open>None\<close> nor
  empty) and its echo is still to be removed, the echo pattern is searched in the output
  and, when found, its first match is deleted and the flag is cleared.  An exception
  of \<^verbatim>\<open>_generate_command_pattern\<close> or of \<^verbatim>\<open>re.sub\<close> leaves the call, with the session
  as it is at that moment.
\<close>

definition remove_command ::
  "('d, 'w) env \<Rightarrow> string option \<Rightarrow> ('d, 'w) loop_state \<Rightarrow>
     (exc \<times> expect_session) + ('d, 'w) loop_state" where
  "remove_command E command st =
     (case command of
        None \<Rightarrow> Inr st
      | Some c \<Rightarrow>
          if c \<noteq> [] \<and> remove_command_from_output st then
            (case generate_command_pattern E (sess st) c of
               Inl e \<Rightarrow> Inl (e, sess st)
             | Inr (command_pattern, s1) \<Rightarrow>
                 if re_search E command_pattern (output_str st) [MULTILINE] \<noteq> None
                 then (case re_sub E command_pattern [] (output_str st) 1 [MULTILINE] of
                         Inl e \<Rightarrow> Inl (e, s1)
                       | Inr stripped \<Rightarrow>
                           Inr (st\<lparr>sess := s1, output_str := stripped,
                                   remove_command_from_output := False\<rparr>))
                 else Inr (st\<lparr>sess := s1\<rparr>))
          else Inr st)"

text \<open>
  Lines 252 to 265, after a chunk has been appended: the prompt test, the action map,
  and the two places that append the output to \<^verbatim>\<open>output_list\<close>.
\<close>

definition match_and_act ::
  "('d, 'w) env \<Rightarrow> ('d, 'w) expect_args \<Rightarrow> ('d, 'w) loop_state \<Rightarrow>
     (exc \<times> 'w) + ('d, 'w) loop_state" where
  "match_and_act E A st =
     (let st1 = (if match_prompt E (arg_expected_string A) (output_str st)
                 then st\<lparr>output_list := output_list st @ [output_str st], is_correct_exit := True\<rparr>
                 else st)
      in case arg_action_map A (output_str st1) (arg_check_action_loop_detector A)
                (action_loop_detector st1) (world st1) of
           (Inl e, d, w) \<Rightarrow> Inl (e, w)
         | (Inr action_matched, d, w) \<Rightarrow>
             (let st2 = st1\<lparr>action_loop_detector := d, world := w\<rparr>
              in Inr (if action_matched
                      then st2\<lparr>output_list := output_list st2 @ [output_str st2], output_str := []\<rparr>
                      else st2)))"

text \<open>
  The loop of lines 226 to 271.  Its result is the exception that leaves the call or
  the list \<^verbatim>\<open>output_list\<close>, with the session and the world at that moment.  With
  \<^verbatim>\<open>retries == 0\<close> and a device that keeps talking without showing the prompt the loop
  does not end, which is the value \<open>None\<close>.
\<close>

partial_function (option) expect_loop ::
  "('d, 'w) env \<Rightarrow> ('d, 'w) expect_args \<Rightarrow> ('d, 'w) loop_state \<Rightarrow>
     ((exc + string list) \<times> expect_session \<times> 'w) option" where
  "expect_loop E A st =
     (if arg_retries A = 0 \<or> retries_count st < arg_retries A then
        (case receive_all E (sess st) (arg_timeout A) (world st) of
           None \<Rightarrow> None
         | Some (Inl e, w1) \<Rightarrow> Some (Inl e, sess st, w1)
         | Some (Inr read_buffer, w1) \<Rightarrow>
             if read_buffer \<noteq> [] then
               (case remove_command E (arg_command A)
                       (st\<lparr>world := w1,
                           output_str := output_str st @ normalize_buffer E read_buffer\<rparr>) of
                  Inl (e, s1) \<Rightarrow> Some (Inl e, s1, w1)
                | Inr st1 \<Rightarrow>
                    (let st2 = st1\<lparr>retries_count := 0\<rparr>
                     in case match_and_act E A st2 of
                          Inl (e, w2) \<Rightarrow> Some (Inl e, sess st2, w2)
                        | Inr st3 \<Rightarrow>
                            if is_correct_exit st3
                            then Some (Inr (output_list st3), sess st3, world st3)
                            else expect_loop E A st3))
             else
               expect_loop E A
                 (st\<lparr>retries_count := retries_count st + 1,
                     world := time_sleep E (arg_empty_loop_timeout A) w1\<rparr>))
      else if \<not> is_correct_exit st
        then Some (Inl (SessionLoopLimitException (retries_count st)), sess st, world st)
        else Some (Inr (output_list st), sess st, world st))"

declare expect_loop.simps [code]

text \<open>
  Lines 208 to 214: with a command, the buffer is cleared and the command is sent; then
  an empty \<^verbatim>\<open>expected_string\<close> is refused.
\<close>

definition send_command ::
  "('d, 'w) env \<Rightarrow> expect_session \<Rightarrow> string option \<Rightarrow> 'w \<Rightarrow> ((exc + unit) \<times> 'w) option" where
  "send_command E s command w =
     (case command of
        None \<Rightarrow> Some (Inr (), w)
      | Some c \<Rightarrow>
          (case clear_buffer E (self_clear_buffer_timeout s) w of
             None \<Rightarrow> None
           | Some (Inl e, w1) \<Rightarrow> Some (Inl e, w1)
           | Some (Inr _, w1) \<Rightarrow> Some (send_line E s c w1)))"

text \<open>
  Lines 273 to 278: the segments are joined, the error map is run on the result, and
  what is left in the buffer is appended.
\<close>

definition finish ::
  "('d, 'w) env \<Rightarrow> error_map \<Rightarrow> string list \<Rightarrow> expect_session \<times> 'w \<Rightarrow>
     ((exc + string) \<times> expect_session \<times> 'w) option" where
  "finish E error_map segments = (\<lambda>(s, w).
     (let result_output = concat segments
      in case error_map_process E error_map result_output of
           Some e \<Rightarrow> Some (Inl e, s, w)
         | None \<Rightarrow>
             (case clear_buffer E (self_clear_buffer_timeout s) w of
                None \<Rightarrow> None
              | Some (Inl e, w1) \<Rightarrow> Some (Inl e, s, w1)
              | Some (Inr rest, w1) \<Rightarrow> Some (Inr (result_output @ rest), s, w1))))"

text \<open>
  Lines 203 to 206, the defaults of the arguments, and lines 218 to 224, the variables
  before the loop.
\<close>

definition call_args ::
  "string option \<Rightarrow> string \<Rightarrow> ('d, 'w) action_map option \<Rightarrow> error_map option \<Rightarrow>
     rat option \<Rightarrow> int option \<Rightarrow> bool \<Rightarrow> rat option \<Rightarrow> expect_session \<Rightarrow> ('d, 'w) expect_args" where
  "call_args command expected_string action_map error_map tmo retries
       check_action_loop_detector empty_loop_timeout s =
     \<lparr> arg_command = command,
       arg_expected_string = expected_string,
       arg_action_map = (case action_map of None \<Rightarrow> empty_action_map | Some m \<Rightarrow> m),
       arg_error_map = (case error_map of None \<Rightarrow> [] | Some m \<Rightarrow> m),
       arg_timeout = tmo,
       arg_retries = or_default retries (self_max_loop_retries s),
       arg_check_action_loop_detector = check_action_loop_detector,
       arg_empty_loop_timeout = or_default empty_loop_timeout (self_empty_loop_timeout s) \<rparr>"

definition loop_start ::
  "('d, 'w) env \<Rightarrow> bool \<Rightarrow> expect_session \<Rightarrow> 'w \<Rightarrow> ('d, 'w) loop_state" where
  "loop_start E remove_command_from_output' s w =
     \<lparr> output_list = [], output_str = [], retries_count = 0, is_correct_exit = False,
       remove_command_from_output = remove_command_from_output',
       action_loop_detector =
         ActionLoopDetector E (self_loop_detector_max_action_loops s)
           (self_loop_detector_max_combination_length s),
       sess = s, world = w \<rparr>"

definition hardware_expect ::
  "('d, 'w) env \<Rightarrow> string option \<Rightarrow> string \<Rightarrow> ('d, 'w) action_map option \<Rightarrow>
     error_map option \<Rightarrow> rat option \<Rightarrow> int option \<Rightarrow> bool \<Rightarrow> rat option \<Rightarrow> bool \<Rightarrow>
     expect_session \<times> 'w \<Rightarrow> ((exc + string) \<times> expect_session \<times> 'w) option" where
  "hardware_expect E command expected_string action_map error_map tmo retries
       check_action_loop_detector empty_loop_timeout remove_command_from_output' = (\<lambda>(s, w).
     (let A = call_args command expected_string action_map error_map tmo retries
                check_action_loop_detector empty_loop_timeout s
      in case send_command E s command w of
           None \<Rightarrow> None
         | Some (Inl e, w1) \<Rightarrow> Some (Inl e, s, w1)
         | Some (Inr _, w1) \<Rightarrow>
             if expected_string = [] then
               Some (Inl (ExpectedSessionException
                            ''List of expected messages can't be empty!''), s, w1)
             else
               (case expect_loop E A (loop_start E remove_command_from_output' s w1) of
                  None \<Rightarrow> None
                | Some (Inl e, s2, w2) \<Rightarrow> Some (Inl e, s2, w2)
                | Some (Inr segments, s2, w2) \<Rightarrow> finish E (arg_error_map A) segments (s2, w2))))"

text \<open>\<^verbatim>\<open>probe_for_prompt\<close> is \<^verbatim>\<open>hardware_expect\<close> with an empty command.\<close>

definition probe_for_prompt ::
  "('d, 'w) env \<Rightarrow> string \<Rightarrow> expect_session \<times> 'w \<Rightarrow>
     ((exc + string) \<times> expect_session \<times> 'w) option" where
  "probe_for_prompt E expected_string =
     hardware_expect E (Some []) expected_string None None None None True None True"

section \<open>The connection manager (cloudshell/cli/session/connection_manager.py)\<close>

text \<open>
  Threads and session objects are named by numbers.  The manager owns the bounded queue
  of idle sessions (\<^verbatim>\<open>Queue(maxsize=max_connections)\<close>: \<^verbatim>\<open>put\<close> appends, \<^verbatim>\<open>get\<close>
  takes the head) and the counter \<^verbatim>\<open>_existing_sessions\<close>; the creation lock and the
  per-thread session container are attributes of the class, shared by everything.
\<close>

type_synonym tid = nat
type_synonym sid = nat

record connection_manager =
  max_connections :: int
  session_pool :: "sid list"
  existing_sessions :: int

text \<open>\<^verbatim>\<open>__init__\<close>: an empty queue and a counter of zero.\<close>

definition init_manager :: "int \<Rightarrow> connection_manager" where
  "init_manager n = \<lparr> max_connections = n, session_pool = [], existing_sessions = 0 \<rparr>"

text \<open>
  \<^verbatim>\<open>increment_sessions_count\<close> as one step, for its call in line 164, which is made under
  the creation lock; the two counter methods called from anywhere are taken step by step
  further down.
\<close>

definition increment_sessions_count :: "connection_manager \<Rightarrow> connection_manager" where
  "increment_sessions_count m = m\<lparr>existing_sessions := existing_sessions m + 1\<rparr>"

text \<open>
  The state shared by the threads: the manager, the class attributes
  \<^verbatim>\<open>CREATE_SESSION_LOCK\<close> (its holder) and \<^verbatim>\<open>SESSION_CONTAINER\<close>, and the session
  objects that the references denote.
\<close>

record runtime =
  manager :: connection_manager
  CREATE_SESSION_LOCK :: "tid option"
  SESSION_CONTAINER :: "tid \<rightharpoonup> sid"
  objects :: "sid \<Rightarrow> expect_session"

text \<open>
  Modelled from the spec: \<^verbatim>\<open>set_invalid\<close>, the method of the session that
  \<^verbatim>\<open>destroy_thread_session\<close> calls, is not in the session module at hand.  The spec says
  of \<^verbatim>\<open>destroyAffinity\<close> that it "marks the session inactive"; the session's flag is
  written by \<open>set_active\<close>.
\<close>

definition set_invalid :: "expect_session \<Rightarrow> expect_session" where
  "set_invalid s = set_active s False"

text \<open>\<^verbatim>\<open>destroy_thread_session\<close>, called by thread \<open>t\<close> (\<^verbatim>\<open>currentThread()\<close>).\<close>

definition destroy_thread_session :: "tid \<Rightarrow> sid \<Rightarrow> runtime \<Rightarrow> runtime" where
  "destroy_thread_session t session r =
     (let r1 = r\<lparr>objects := (objects r)(session := set_invalid (objects r session))\<rparr>
      in if t \<in> dom (SESSION_CONTAINER r1)
         then r1\<lparr>SESSION_CONTAINER := (SESSION_CONTAINER r1)(t := None)\<rparr>
         else r1)"

subsection \<open>Threads in \<^verbatim>\<open>get_session_instance\<close> and \<^verbatim>\<open>return_session_to_pool\<close>\<close>

text \<open>
  The queue of the pool is a \<^verbatim>\<open>Queue(maxsize=max_connections)\<close>: it is full when
  \<^verbatim>\<open>maxsize\<close> is positive and that many items are in it, and a \<^verbatim>\<open>maxsize\<close> that is not
  positive makes it unbounded.  \<^verbatim>\<open>put\<close> appends at the end.
\<close>

definition queue_full :: "connection_manager \<Rightarrow> bool" where
  "queue_full m \<longleftrightarrow> 0 < max_connections m \<and> int (length (session_pool m)) = max_connections m"

definition queue_put :: "sid \<Rightarrow> connection_manager \<Rightarrow> connection_manager" where
  "queue_put session m = m\<lparr>session_pool := session_pool m @ [session]\<rparr>"

text \<open>
  Where a thread stands in the two methods.  In \<^verbatim>\<open>get_session_instance\<close>: waiting for
  the lock (line 161), at the two tests of line 162, in
  \<^verbatim>\<open>_create_session_by_connection_type\<close> (line 163), before
  \<^verbatim>\<open>increment_sessions_count\<close> (line 164) and before \<^verbatim>\<open>return_session_to_pool\<close>
  (line 165) with the session just created, at the end of the \<^verbatim>\<open>with\<close> block, and in
  \<^verbatim>\<open>_get_session_from_pool\<close> (line 166).  In \<^verbatim>\<open>return_session_to_pool\<close>: before the
  \<^verbatim>\<open>put\<close> of line 146.
\<close>

datatype place =
    Outside
  | AtLock
  | AtTestEmpty
  | AtTestCount
  | AtCreate
  | AtIncrement sid
  | AtPut sid
  | AtRelease
  | AtGet
  | AtReturn sid

text \<open>
  What a thread does next.  A blocking \<^verbatim>\<open>put\<close> goes through when the queue is not full
  and may give up with \<^verbatim>\<open>Full\<close> while it is; a blocking \<^verbatim>\<open>get\<close> goes through when the
  queue is not empty and may give up while it is;
  \<^verbatim>\<open>_create_session_by_connection_type\<close> returns a session or raises.
\<close>

datatype move =
    CallGet
  | LockAcquire
  | TestEmpty
  | TestCount
  | CreateOk sid
  | CreateRaise
  | Incr
  | PutOk
  | PutFull
  | LockRelease
  | GetOk
  | GetEmpty
  | CallReturn sid
  | ReturnOk
  | ReturnFull

record pool_run = runtime +
  place_of :: "tid \<Rightarrow> place"

definition goto :: "tid \<Rightarrow> place \<Rightarrow> pool_run \<Rightarrow> pool_run" where
  "goto t p r = r\<lparr>place_of := (place_of r)(t := p)\<rparr>"

text \<open>
  One step of thread \<open>t\<close>; \<open>None\<close> when the thread cannot make that move where it
  stands.  An exception inside the \<^verbatim>\<open>with\<close> block releases the lock on its way out.
\<close>

definition step :: "tid \<Rightarrow> move \<Rightarrow> pool_run \<Rightarrow> pool_run option" where
  "step t mv r =
     (case mv of
        CallGet \<Rightarrow>
          (case place_of r t of Outside \<Rightarrow> Some (goto t AtLock r) | _ \<Rightarrow> None)
      | LockAcquire \<Rightarrow>
          (case place_of r t of
             AtLock \<Rightarrow>
               if CREATE_SESSION_LOCK r = None
               then Some (goto t AtTestEmpty (r\<lparr>CREATE_SESSION_LOCK := Some t\<rparr>))
               else None
           | _ \<Rightarrow> None)
      | TestEmpty \<Rightarrow>
          (case place_of r t of
             AtTestEmpty \<Rightarrow>
               Some (goto t (if session_pool (manager r) = [] then AtTestCount else AtRelease) r)
           | _ \<Rightarrow> None)
      | TestCount \<Rightarrow>
          (case place_of r t of
             AtTestCount \<Rightarrow>
               Some (goto t (if existing_sessions (manager r) < max_connections (manager r)
                             then AtCreate else AtRelease) r)
           | _ \<Rightarrow> None)
      | CreateOk session \<Rightarrow>
          (case place_of r t of
             AtCreate \<Rightarrow> Some (goto t (AtIncrement session) r)
           | _ \<Rightarrow> None)
      | CreateRaise \<Rightarrow>
          (case place_of r t of
             AtCreate \<Rightarrow> Some (goto t Outside (r\<lparr>CREATE_SESSION_LOCK := None\<rparr>))
           | _ \<Rightarrow> None)
      | Incr \<Rightarrow>
          (case place_of r t of
             AtIncrement session \<Rightarrow>
               Some (goto t (AtPut session)
                       (r\<lparr>manager := increment_sessions_count (manager r)\<rparr>))
           | _ \<Rightarrow> None)
      | PutOk \<Rightarrow>
          (case place_of r t of
             AtPut session \<Rightarrow>
               if queue_full (manager r) then None
               else Some (goto t AtRelease (r\<lparr>manager := queue_put session (manager r)\<rparr>))
           | _ \<Rightarrow> None)
      | PutFull \<Rightarrow>
          (case place_of r t of
             AtPut session \<Rightarrow>
               if queue_full (manager r)
               then Some (goto t Outside (r\<lparr>CREATE_SESSION_LOCK := None\<rparr>))
               else None
           | _ \<Rightarrow> None)
      | LockRelease \<Rightarrow>
          (case place_of r t of
             AtRelease \<Rightarrow> Some (goto t AtGet (r\<lparr>CREATE_SESSION_LOCK := None\<rparr>))
           | _ \<Rightarrow> None)
      | GetOk \<Rightarrow>
          (case place_of r t of
             AtGet \<Rightarrow>
               (case session_pool (manager r) of
                  [] \<Rightarrow> None
                | session # rest \<Rightarrow>
                    Some (goto t Outside (r\<lparr>manager := (manager r)\<lparr>session_pool := rest\<rparr>\<rparr>)))
           | _ \<Rightarrow> None)
      | GetEmpty \<Rightarrow>
          (case place_of r t of
             AtGet \<Rightarrow> if session_pool (manager r) = [] then Some (goto t Outside r) else None
           | _ \<Rightarrow> None)
      | CallReturn session \<Rightarrow>
          (case place_of r t of Outside \<Rightarrow> Some (goto t (AtReturn session) r) | _ \<Rightarrow> None)
      | ReturnOk \<Rightarrow>
          (case place_of r t of
             AtReturn session \<Rightarrow>
               if queue_full (manager r) then None
               else Some (goto t Outside (r\<lparr>manager := queue_put session (manager r)\<rparr>))
           | _ \<Rightarrow> None)
      | ReturnFull \<Rightarrow>
          (case place_of r t of
             AtReturn session \<Rightarrow> if queue_full (manager r) then Some (goto t Outside r) else None
           | _ \<Rightarrow> None))"





subsection \<open>Threads in \<^verbatim>\<open>decrement_sessions_count\<close> and \<^verbatim>\<open>increment_sessions_count\<close>\<close>

text \<open>
  The two methods take no lock.  A thread in \<^verbatim>\<open>decrement_sessions_count\<close> is at the test
  of line 149, or in line 150 before it reads the counter, or before it writes the
  value it has computed; a thread in \<^verbatim>\<open>increment_sessions_count\<close> is in line 153 before
  it reads the counter, or before it writes the value it has computed.  Other threads
  may run between any two of these steps.
\<close>

datatype counter_place =
    Away
  | AtTest
  | AtReadDown
  | AtWriteDown int
  | AtReadUp
  | AtWriteUp int

datatype counter_move = CallDecrement | CallIncrement | Go

text \<open>The manager and the places of the threads \<open>0, \<dots>, k - 1\<close>.\<close>

record counter_run =
  counter_manager :: connection_manager
  counter_places :: "counter_place list"

definition move_to :: "tid \<Rightarrow> counter_place \<Rightarrow> counter_run \<Rightarrow> counter_run" where
  "move_to t p r = r\<lparr>counter_places := (counter_places r)[t := p]\<rparr>"

definition write_counter :: "int \<Rightarrow> counter_run \<Rightarrow> counter_run" where
  "write_counter v r = r\<lparr>counter_manager := (counter_manager r)\<lparr>existing_sessions := v\<rparr>\<rparr>"

text \<open>
  One step of thread \<open>t\<close>: it calls one of the methods when it is in neither, or goes
  on by one step in the method it is in.
\<close>

definition counter_step :: "tid \<Rightarrow> counter_move \<Rightarrow> counter_run \<Rightarrow> counter_run option" where
  "counter_step t mv r =
     (if t < length (counter_places r) then
        (case mv of
           CallDecrement \<Rightarrow>
             (case counter_places r ! t of Away \<Rightarrow> Some (move_to t AtTest r) | _ \<Rightarrow> None)
         | CallIncrement \<Rightarrow>
             (case counter_places r ! t of Away \<Rightarrow> Some (move_to t AtReadUp r) | _ \<Rightarrow> None)
         | Go \<Rightarrow>
             (case counter_places r ! t of
                Away \<Rightarrow> None
              | AtTest \<Rightarrow>
                  Some (move_to t (if existing_sessions (counter_manager r) > 0
                                   then AtReadDown else Away) r)
              | AtReadDown \<Rightarrow>
                  Some (move_to t (AtWriteDown (existing_sessions (counter_manager r) - 1)) r)
              | AtWriteDown v \<Rightarrow> Some (move_to t Away (write_counter v r))
              | AtReadUp \<Rightarrow>
                  Some (move_to t (AtWriteUp (existing_sessions (counter_manager r) + 1)) r)
              | AtWriteUp v \<Rightarrow> Some (move_to t Away (write_counter v r))))
      else None)"

fun counter_steps :: "(tid \<times> counter_move) list \<Rightarrow> counter_run \<Rightarrow> counter_run option" where
  "counter_steps [] r = Some r"
| "counter_steps ((t, mv) # ms) r =
     (case counter_step t mv r of None \<Rightarrow> None | Some r1 \<Rightarrow> counter_steps ms r1)"

text \<open>A new manager of size \<open>n\<close> and \<open>k\<close> threads, none of them in a method.\<close>

definition counter_start :: "int \<Rightarrow> nat \<Rightarrow> counter_run" where
  "counter_start n k = \<lparr> counter_manager = init_manager n, counter_places = replicate k Away \<rparr>"

section \<open>A scripted device\<close>

text \<open>
  For the concrete runs below: a device that answers the reads of the session from a
  script and is silent when the script is used up.  A read that times out takes the time
  it was given.  Everything sent to the device is recorded, and each thing sent makes
  the device add its next reply to the script.
\<close>

record device =
  dev_script :: "(exc + string) list"
  dev_replies :: "(exc + string) list list"
  dev_clock :: rat
  dev_sent :: "string list"
  dev_refuses :: bool
  dev_open :: bool

definition dev_receive :: "rat \<Rightarrow> device \<Rightarrow> (exc + string) \<times> device" where
  "dev_receive tmo w =
     (case dev_script w of
        [] \<Rightarrow> (Inl SessionReadTimeout, w\<lparr>dev_clock := dev_clock w + tmo\<rparr>)
      | r # rs \<Rightarrow> (r, w\<lparr>dev_script := rs\<rparr>))"

definition dev_send :: "string \<Rightarrow> device \<Rightarrow> (exc + unit) \<times> device" where
  "dev_send data w =
     (case dev_replies w of
        [] \<Rightarrow> (Inr (), w\<lparr>dev_sent := dev_sent w @ [data]\<rparr>)
      | r # rs \<Rightarrow>
          (Inr (), w\<lparr>dev_sent := dev_sent w @ [data], dev_script := dev_script w @ r,
                    dev_replies := rs\<rparr>))"

definition dev_initialize :: "string \<Rightarrow> device \<Rightarrow> (exc + unit) \<times> device" where
  "dev_initialize prompt w =
     (if dev_refuses w then (Inl (OtherException ''connection refused''), w)
      else (Inr (), w\<lparr>dev_open := True\<rparr>))"

definition dev_disconnect :: "device \<Rightarrow> (exc + unit) \<times> device" where
  "dev_disconnect w = (Inr (), w\<lparr>dev_open := False\<rparr>)"

text \<open>
  The regular expressions of the runs are plain texts without metacharacters, which
  \<^verbatim>\<open>re.search\<close> finds as substrings, and echo patterns \<^verbatim>\<open>\s*text\s*\<close>, whose leftmost
  match is the first occurrence of the text with the white space around it.
\<close>

definition is_space :: "char \<Rightarrow> bool" where
  "is_space c \<longleftrightarrow> c \<in> set [CHR 0x20, CHR 0x09, CHR 0x0A, CHR 0x0B, CHR 0x0C, CHR 0x0D]"

fun starts_with :: "string \<Rightarrow> string \<Rightarrow> bool" where
  "starts_with s [] = True"
| "starts_with [] (p # ps) = False"
| "starts_with (c # cs) (p # ps) = (c = p \<and> starts_with cs ps)"

fun split_at :: "string \<Rightarrow> string \<Rightarrow> (string \<times> string) option" where
  "split_at text [] = (if text = [] then Some ([], []) else None)"
| "split_at text (c # cs) =
     (if starts_with (c # cs) text then Some ([], drop (length text) (c # cs))
      else (case split_at text cs of None \<Rightarrow> None | Some (b, a) \<Rightarrow> Some (c # b, a)))"

definition ws_star :: string where
  "ws_star = backslash # ''s*''"

definition echo_core :: "string \<Rightarrow> string option" where
  "echo_core pattern =
     (if 6 \<le> length pattern \<and> starts_with pattern ws_star \<and> starts_with (rev pattern) (rev ws_star)
      then Some (take (length pattern - 6) (drop 3 pattern)) else None)"

definition text_search :: "string \<Rightarrow> string \<Rightarrow> re_flag list \<Rightarrow> string option" where
  "text_search pattern s flags =
     (case echo_core pattern of
        None \<Rightarrow> (case split_at pattern s of None \<Rightarrow> None | Some (b, a) \<Rightarrow> Some pattern)
      | Some core \<Rightarrow>
          (case split_at core s of
             None \<Rightarrow> None
           | Some (b, a) \<Rightarrow> Some (rev (takeWhile is_space (rev b)) @ core @ takeWhile is_space a)))"

fun replace_n :: "bool \<Rightarrow> nat \<Rightarrow> string \<Rightarrow> string \<Rightarrow> string \<Rightarrow> string" where
  "replace_n ws 0 text repl s = s"
| "replace_n ws (Suc n) text repl s =
     (case split_at text s of
        None \<Rightarrow> s
      | Some (b, a) \<Rightarrow>
          (if ws then rev (dropWhile is_space (rev b)) else b) @ repl @
          replace_n ws n text repl (if ws then dropWhile is_space a else a))"

text \<open>
  \<^verbatim>\<open>re.sub\<close> reads its replacement as a template before it searches anything.  Since
  Python 3.7 a backslash in the template that stands before an ASCII letter other than
  those of the template's own escapes, or at its end, is an error (\<^verbatim>\<open>bad escape\<close>).
\<close>

definition is_ascii_letter :: "char \<Rightarrow> bool" where
  "is_ascii_letter c \<longleftrightarrow>
     (let n = (of_char c :: nat) in (65 \<le> n \<and> n \<le> 90) \<or> (97 \<le> n \<and> n \<le> 122))"

fun bad_escape :: "string \<Rightarrow> bool" where
  "bad_escape [] = False"
| "bad_escape [c] = (c = backslash)"
| "bad_escape (c # d # cs) =
     (if c = backslash
      then (is_ascii_letter d \<and> d \<notin> set ''abfgnrtv'') \<or> bad_escape cs
      else bad_escape (d # cs))"

definition text_sub ::
  "string \<Rightarrow> string \<Rightarrow> string \<Rightarrow> nat \<Rightarrow> re_flag list \<Rightarrow> exc + string" where
  "text_sub pattern repl s count flags =
     (if bad_escape repl then Inl (OtherException ''re.error: bad escape'')
      else
        (let n = (if count = 0 then length s else count)
         in case echo_core pattern of
              None \<Rightarrow> Inr (replace_n False n pattern repl s)
            | Some core \<Rightarrow> Inr (replace_n True n core repl s)))"

text \<open>
  The environment of the scripted device.  Its commands are words of letters, which
  \<^verbatim>\<open>re.escape\<close> leaves as they are, and its output is plain text, taken to pass
  \<^verbatim>\<open>normalize_buffer\<close> unchanged.
\<close>

definition scripted :: "(unit, device) env" where
  "scripted =
     \<lparr> receive = dev_receive,
       send = dev_send,
       disconnect = dev_disconnect,
       initialize_session = dev_initialize,
       connect_actions = (\<lambda>prompt w. (Inr (), w)),
       time_time = (\<lambda>w. (dev_clock w, w)),
       time_sleep = (\<lambda>t w. w\<lparr>dev_clock := dev_clock w + t\<rparr>),
       re_search = text_search,
       re_sub = text_sub,
       re_escape = (\<lambda>s. s),
       normalize_buffer = (\<lambda>s. s),
       ActionLoopDetector = (\<lambda>max_action_loops max_combination_length. ()) \<rparr>"

text \<open>An action map with one rule: at a password prompt the password is sent.\<close>

definition password_map :: "(unit, device) action_map" where
  "password_map output check_action_loop_detector d w =
     (case text_search ''Password:'' output [] of
        None \<Rightarrow> (Inr False, d, w)
      | Some m \<Rightarrow>
          (case dev_send ''secret'' w of
             (Inl e, w1) \<Rightarrow> (Inl e, d, w1)
           | (Inr u, w1) \<Rightarrow> (Inr True, d, w1)))"

definition new_device :: "(exc + string) list \<Rightarrow> (exc + string) list list \<Rightarrow> device" where
  "new_device script replies =
     \<lparr> dev_script = script, dev_replies = replies, dev_clock = 0, dev_sent = [],
       dev_refuses = False, dev_open = False \<rparr>"

section \<open>Notions used in the statements\<close>

text \<open>
  What \<^verbatim>\<open>_receive_all\<close> can hand to its caller: a chunk that is not empty, or an
  exception other than the two read signals.
\<close>

definition proper_chunk :: "(exc + string) \<times> 'w \<Rightarrow> bool" where
  "proper_chunk y \<longleftrightarrow> (case fst y of Inr x \<Rightarrow> x \<noteq> [] | Inl e \<Rightarrow> \<not> is_read_signal e)"



text \<open>
  A schedule keeps the decrements apart when, in every state it passes, at most one
  thread is in \<^verbatim>\<open>decrement_sessions_count\<close>.
\<close>

fun decrementing :: "counter_place \<Rightarrow> bool" where
  "decrementing AtTest = True"
| "decrementing AtReadDown = True"
| "decrementing (AtWriteDown v) = True"
| "decrementing _ = False"

definition decrements_apart :: "counter_run \<Rightarrow> bool" where
  "decrements_apart r \<longleftrightarrow> length (filter decrementing (counter_places r)) \<le> 1"

fun apart :: "(tid \<times> counter_move) list \<Rightarrow> counter_run \<Rightarrow> bool" where
  "apart [] r = decrements_apart r"
| "apart ((t, mv) # ms) r =
     (decrements_apart r \<and>
      (case counter_step t mv r of None \<Rightarrow> True | Some r1 \<Rightarrow> apart ms r1))"

text \<open>
  What holds between the steps when the decrements are kept apart: the counter is not
  negative, a thread about to write has computed a value that is not negative (positive
  after an increment), and a decrementing thread that has passed the test and not yet
  read the counter finds it positive.
\<close>

fun place_ok :: "int \<Rightarrow> counter_place \<Rightarrow> bool" where
  "place_ok c AtReadDown = (1 \<le> c)"
| "place_ok c (AtWriteDown v) = (0 \<le> v)"
| "place_ok c (AtWriteUp v) = (1 \<le> v)"
| "place_ok c _ = True"

definition counter_invariant :: "counter_run \<Rightarrow> bool" where
  "counter_invariant r \<longleftrightarrow>
     0 \<le> existing_sessions (counter_manager r) \<and>
     list_all (place_ok (existing_sessions (counter_manager r))) (counter_places r)"

text \<open>
  Two threads and a counter brought to 1: a decrement and an increment that overlap, so
  that the increment is lost.
\<close>

definition lost_update :: "(tid \<times> counter_move) list" where
  "lost_update =
     [(0, CallIncrement), (0, Go), (0, Go),
      (0, CallDecrement), (1, CallIncrement), (0, Go), (1, Go), (0, Go), (1, Go), (0, Go)]"

text \<open>Two threads and a counter brought to 1: two decrements that overlap.\<close>

definition two_decrements :: "(tid \<times> counter_move) list" where
  "two_decrements =
     [(0, CallIncrement), (0, Go), (0, Go),
      (0, CallDecrement), (1, CallDecrement), (0, Go), (1, Go), (0, Go), (0, Go), (1, Go), (1, Go)]"

section \<open>Properties\<close>

subsection \<open>What the reads return\<close>

lemma proper_chunk_simps [simp]:
  "proper_chunk (Inr x, w) \<longleftrightarrow> x \<noteq> []"
  "proper_chunk (Inl e, w) \<longleftrightarrow> \<not> is_read_signal e"
  by (simp_all add: proper_chunk_def)

lemma receive_all_loop_result:
  "receive_all_loop E tmo start_time read_buffer w = Some y \<Longrightarrow> proper_chunk y"
proof (induction rule: receive_all_loop.raw_induct [rotated 1, consumes 1, case_names step])
  case (step rec E tmo start_time read_buffer w y)
  show ?case
  proof (cases "receive E (1 / 10) w")
    case (Pair r w1)
    show ?thesis
    proof (cases r)
      case (Inr data)
      with Pair step show ?thesis by simp
    next
      case (Inl e)
      show ?thesis
      proof (cases "is_read_signal e")
        case False
        with Pair Inl step(2) have "y = (Inl e, w1)" by simp
        with False show ?thesis by simp
      next
        case True
        with Pair Inl step show ?thesis
          by (cases "time_time E w1") (auto split: if_splits simp: is_read_signal_def)
      qed
    qed
  qed
qed

lemma receive_all_result:
  "receive_all E s tmo w = Some y \<Longrightarrow> proper_chunk y"
  unfolding receive_all_def
  by (auto split: prod.splits dest: receive_all_loop_result)

subsection \<open>The error map\<close>

lemma error_map_process_some:
  "(pattern, kind) \<in> set em \<Longrightarrow> re_search E pattern out [] = Some matched \<Longrightarrow>
     \<exists>m p k. error_map_process E em out = Some (CommandExecutionException m) \<and>
             (p, k) \<in> set em \<and> re_search E p out [] = Some m"
proof (induction em)
  case Nil
  then show ?case by simp
next
  case (Cons rule rules)
  obtain p k where rule: "rule = (p, k)" by (cases rule)
  show ?case
  proof (cases "re_search E p out []")
    case (Some m)
    have "error_map_process E (rule # rules) out = Some (CommandExecutionException m)"
      by (simp add: rule Some)
    moreover have "(p, k) \<in> set (rule # rules)" by (simp add: rule)
    ultimately show ?thesis using Some by blast
  next
    case None
    have "pattern \<noteq> p" using None Cons.prems(2) by auto
    with Cons.prems(1) rule have "(pattern, kind) \<in> set rules" by simp
    from Cons.IH [OF this Cons.prems(2)] obtain m p' k'
      where 1: "error_map_process E rules out = Some (CommandExecutionException m)"
        and 2: "(p', k') \<in> set rules" and 3: "re_search E p' out [] = Some m" by blast
    have "error_map_process E (rule # rules) out = Some (CommandExecutionException m)"
      by (simp add: rule None 1)
    moreover have "(p', k') \<in> set (rule # rules)" using 2 by simp
    ultimately show ?thesis using 3 by blast
  qed
qed

lemma error_map_process_none:
  "error_map_process E em out = None \<longleftrightarrow> (\<forall>(p, k) \<in> set em. re_search E p out [] = None)"
proof (induction em)
  case Nil
  show ?case by simp
next
  case (Cons rule rules)
  obtain p k where rule: "rule = (p, k)" by (cases rule)
  show ?case
    by (cases "re_search E p out []") (simp_all add: rule Cons.IH)
qed

subsection \<open>Destroying a thread's session\<close>

text \<open>
  Claim C8.  \<^verbatim>\<open>destroy_thread_session\<close> called by thread \<open>t\<close> with a session marks that
  session inactive and leaves the container without an entry for \<open>t\<close>; the idle queue
  and the counter of the manager, the lock, the other sessions and the entries of the
  other threads are as before: the session is not put back into the pool.
\<close>

theorem destroy_thread_session_effect:
  "active (objects (destroy_thread_session t session r) session) = False \<and>
   SESSION_CONTAINER (destroy_thread_session t session r) t = None \<and>
   manager (destroy_thread_session t session r) = manager r \<and>
   CREATE_SESSION_LOCK (destroy_thread_session t session r) = CREATE_SESSION_LOCK r \<and>
   (\<forall>t'. t' \<noteq> t \<longrightarrow>
      SESSION_CONTAINER (destroy_thread_session t session r) t' = SESSION_CONTAINER r t') \<and>
   (\<forall>s'. s' \<noteq> session \<longrightarrow>
      objects (destroy_thread_session t session r) s' = objects r s')"
  by (auto simp: destroy_thread_session_def Let_def set_invalid_def set_active_def active_def)

theorem destroy_thread_session_effect_witness:
  "active (objects (destroy_thread_session 1 7
      \<lparr> manager = init_manager 2, CREATE_SESSION_LOCK = None,
        SESSION_CONTAINER = [1 \<mapsto> 7, 2 \<mapsto> 8],
        objects = (\<lambda>_. set_active init_session True) \<rparr>) 7) = False \<and>
   SESSION_CONTAINER (destroy_thread_session 1 7
      \<lparr> manager = init_manager 2, CREATE_SESSION_LOCK = None,
        SESSION_CONTAINER = [1 \<mapsto> 7, 2 \<mapsto> 8],
        objects = (\<lambda>_. set_active init_session True) \<rparr>) 2 = Some 8 \<and>
   active (objects (destroy_thread_session 1 7
      \<lparr> manager = init_manager 2, CREATE_SESSION_LOCK = None,
        SESSION_CONTAINER = [1 \<mapsto> 7, 2 \<mapsto> 8],
        objects = (\<lambda>_. set_active init_session True) \<rparr>) 8) = True"
  using destroy_thread_session_effect [of 1 7
      "\<lparr> manager = init_manager 2, CREATE_SESSION_LOCK = None,
        SESSION_CONTAINER = [1 \<mapsto> 7, 2 \<mapsto> 8],
        objects = (\<lambda>_. set_active init_session True) \<rparr>"]
  by (simp add: set_active_def active_def)

subsection \<open>Connecting\<close>

text \<open>
  Claim C7.  On a session whose flag is not set: when \<^verbatim>\<open>_initialize_session\<close> or
  \<^verbatim>\<open>_connect_actions\<close> raises \<open>e\<close> and the \<^verbatim>\<open>disconnect\<close> that follows returns,
  \<^verbatim>\<open>connect\<close> raises that same \<open>e\<close>, the world is the one \<^verbatim>\<open>disconnect\<close> left and the
  session is as before, so its flag is still not set; and after \<^verbatim>\<open>connect\<close> the flag is
  set exactly when both steps returned.
\<close>

theorem connect_failure_disconnects_and_reraises:
  assumes "\<not> active s"
  shows "((initialize_session E prompt w = (Inl e, w1) \<or>
           (\<exists>w0. initialize_session E prompt w = (Inr (), w0) \<and>
                 connect_actions E prompt w0 = (Inl e, w1))) \<and>
          disconnect E w1 = (Inr (), w2) \<longrightarrow>
            connect E prompt (s, w) = (Inl e, s, w2)) \<and>
         (active (fst (snd (connect E prompt (s, w)))) \<longleftrightarrow>
            (\<exists>w0 w3. initialize_session E prompt w = (Inr (), w0) \<and>
                     connect_actions E prompt w0 = (Inr (), w3)))"
  using assms
  by (auto simp: connect_def connect_failed_def active_def set_active_def
           split: prod.splits sum.splits)

theorem connect_failure_disconnects_and_reraises_witness:
  "\<not> active init_session \<and>
   connect scripted ''#'' (init_session, (new_device [] [])\<lparr>dev_refuses := True, dev_open := True\<rparr>) =
     (Inl (OtherException ''connection refused''), init_session,
      (new_device [] [])\<lparr>dev_refuses := True, dev_open := False\<rparr>) \<and>
   \<not> active (fst (snd (connect scripted ''#''
        (init_session, (new_device [] [])\<lparr>dev_refuses := True, dev_open := True\<rparr>))))"
  using connect_failure_disconnects_and_reraises [of init_session scripted "''#''"
      "(new_device [] [])\<lparr>dev_refuses := True, dev_open := True\<rparr>"
      "OtherException ''connection refused''"
      "(new_device [] [])\<lparr>dev_refuses := True, dev_open := True\<rparr>"
      "(new_device [] [])\<lparr>dev_refuses := True, dev_open := False\<rparr>"]
  by (simp add: active_def init_session_def scripted_def dev_initialize_def dev_disconnect_def
      new_device_def)

subsection \<open>An empty expected string\<close>




subsection \<open>The error map after a matched prompt\<close>

text \<open>
  Claim C1.  In a call whose loop ends because the prompt matched, with the segments
  \<open>segments\<close>, if a rule of the error map matches the joined segments then the call
  does not return them: it raises \<open>CommandExecutionException\<close> with the text that a rule
  of the map matched.
\<close>

theorem error_map_overrides_prompt_match:
  assumes "send_command E s command w = Some (Inr u, w1)"
    and "expected_string \<noteq> []"
    and "expect_loop E
           (call_args command expected_string action_map (Some em) tmo retries
              check_detector empty_loop_timeout s)
           (loop_start E remove_echo s w1) = Some (Inr segments, s2, w2)"
    and "(pattern, kind) \<in> set em"
    and "re_search E pattern (concat segments) [] = Some matched"
  shows "\<exists>m p k.
           hardware_expect E command expected_string action_map (Some em) tmo retries
             check_detector empty_loop_timeout remove_echo (s, w) =
             Some (Inl (CommandExecutionException m), s2, w2) \<and>
           (p, k) \<in> set em \<and> re_search E p (concat segments) [] = Some m"
proof -
  from error_map_process_some [OF assms(4,5)] obtain m p k
    where "error_map_process E em (concat segments) = Some (CommandExecutionException m)"
      and "(p, k) \<in> set em" and "re_search E p (concat segments) [] = Some m" by blast
  with assms(1,2,3) show ?thesis
    by (auto simp: hardware_expect_def finish_def Let_def call_args_def)
qed

text \<open>
  A run: the device answers the command \<^verbatim>\<open>cmd\<close> with its echo, two lines and the
  prompt, and the caller keeps the echo (\<^verbatim>\<open>remove_command_from_output=False\<close>); the
  prompt matches and so does the error pattern.
\<close>

theorem error_map_overrides_prompt_match_witness:
  "hardware_expect scripted (Some ''cmd'') ''#'' None (Some [(''Syntax error'', ''syntax'')])
     None None True None False
     (init_session,
      new_device []
        [[Inr (''cmd'' @ [CHR 0x0A] @ ''bad arg'' @ [CHR 0x0A] @ ''Syntax error'' @ [CHR 0x0A] @ ''#'')]]) =
   Some (Inl (CommandExecutionException ''Syntax error''), init_session,
         \<lparr> dev_script = [], dev_replies = [], dev_clock = 1 / 5,
           dev_sent = [''cmd'' @ [CHR 0x0D]], dev_refuses = False, dev_open = False \<rparr>)"
proof -
  let ?w = "new_device []
        [[Inr (''cmd'' @ [CHR 0x0A] @ ''bad arg'' @ [CHR 0x0A] @ ''Syntax error'' @ [CHR 0x0A] @ ''#'')]]"
  let ?w1 = "\<lparr> dev_script =
                 [Inr (''cmd'' @ [CHR 0x0A] @ ''bad arg'' @ [CHR 0x0A] @ ''Syntax error'' @ [CHR 0x0A] @ ''#'')],
               dev_replies = [], dev_clock = 1 / 10,
               dev_sent = [''cmd'' @ [CHR 0x0D]], dev_refuses = False, dev_open = False \<rparr>"
  let ?w2 = "\<lparr> dev_script = [], dev_replies = [], dev_clock = 1 / 5,
               dev_sent = [''cmd'' @ [CHR 0x0D]], dev_refuses = False, dev_open = False \<rparr>"
  let ?segments =
    "[''cmd'' @ [CHR 0x0A] @ ''bad arg'' @ [CHR 0x0A] @ ''Syntax error'' @ [CHR 0x0A] @ ''#'']"
  have h1: "send_command scripted init_session (Some ''cmd'') ?w = Some (Inr (), ?w1)"
    by code_simp
  have h2: "''#'' \<noteq> []" by simp
  have h3: "expect_loop scripted
              (call_args (Some ''cmd'') ''#'' None (Some [(''Syntax error'', ''syntax'')])
                 None None True None init_session)
              (loop_start scripted False init_session ?w1) =
            Some (Inr ?segments, init_session, ?w2)"
    by code_simp
  have h4: "(''Syntax error'', ''syntax'') \<in> set [(''Syntax error'', ''syntax'')]" by simp
  have h5: "re_search scripted ''Syntax error'' (concat ?segments) [] = Some ''Syntax error''"
    by code_simp
  from error_map_overrides_prompt_match [OF h1 h2 h3 h4 h5] show ?thesis
    using h5 by auto
qed

subsection \<open>A buffer that matches the prompt and an action\<close>

lemma match_and_act_both:
  assumes "match_prompt E (arg_expected_string A) (output_str st)"
    and "arg_action_map A (output_str st) (arg_check_action_loop_detector A)
           (action_loop_detector st) (world st) = (Inr True, d, w2)"
  shows "match_and_act E A st =
           Inr (st\<lparr>output_list := output_list st @ [output_str st, output_str st],
                   is_correct_exit := True, action_loop_detector := d, world := w2,
                   output_str := []\<rparr>)"
  using assms by (simp add: match_and_act_def Let_def)

text \<open>
  Claim C9.  In an iteration of the loop that reads a chunk after which the output \<open>b\<close>
  (the buffer after the step that removes the echo, which raises nothing here)
  matches the prompt and the action map reports a match, the loop ends with \<open>b\<close>
  appended twice to the segments collected so far, and every result string that
  \<^verbatim>\<open>hardware_expect\<close> then returns holds \<open>b\<close> twice in a row.
\<close>

theorem prompt_and_action_append_twice:
  assumes "arg_retries A = 0 \<or> retries_count st < arg_retries A"
    and "receive_all E (sess st) (arg_timeout A) (world st) = Some (Inr read_buffer, w1)"
    and "remove_command E (arg_command A)
           (st\<lparr>world := w1,
               output_str := output_str st @ normalize_buffer E read_buffer\<rparr>) = Inr st1"
    and "st2 = st1\<lparr>retries_count := 0\<rparr>"
    and "match_prompt E (arg_expected_string A) (output_str st2)"
    and "arg_action_map A (output_str st2) (arg_check_action_loop_detector A)
           (action_loop_detector st2) (world st2) = (Inr True, d, w2)"
  shows "expect_loop E A st =
           Some (Inr (output_list st @ [output_str st2, output_str st2]), sess st2, w2) \<and>
         (\<forall>r s3 w3.
            finish E em (output_list st @ [output_str st2, output_str st2]) (sess st2, w2) =
              Some (Inr r, s3, w3) \<longrightarrow>
            (\<exists>rest. r = concat (output_list st) @ output_str st2 @ output_str st2 @ rest))"
proof -
  from receive_all_result [OF assms(2)] have ne: "read_buffer \<noteq> []" by simp
  have ol: "output_list st2 = output_list st"
    using assms(3,4)
    by (auto simp: remove_command_def split: option.splits prod.splits sum.splits if_splits)
  have "expect_loop E A st =
          Some (Inr (output_list st @ [output_str st2, output_str st2]), sess st2, w2)"
    apply (subst expect_loop.simps)
    using assms(1,2) ne match_and_act_both [OF assms(5,6)] assms(3,4) ol
    by (simp add: Let_def)
  moreover have "\<forall>r s3 w3.
      finish E em (output_list st @ [output_str st2, output_str st2]) (sess st2, w2) =
        Some (Inr r, s3, w3) \<longrightarrow>
      (\<exists>rest. r = concat (output_list st) @ output_str st2 @ output_str st2 @ rest)"
    by (auto simp: finish_def Let_def split: option.splits prod.splits sum.splits)
  ultimately show ?thesis by blast
qed

text \<open>
  A device that shows a password prompt and the shell prompt in one chunk, with the
  action map that answers password prompts: the chunk is returned twice.
\<close>

theorem prompt_and_action_append_twice_witness:
  "hardware_expect scripted None ''#'' (Some password_map) None None None True None True
     (init_session, new_device [Inr ''Password: #''] []) =
   Some (Inr ''Password: #Password: #'', init_session,
         \<lparr> dev_script = [], dev_replies = [], dev_clock = 1 / 5,
           dev_sent = [''secret''], dev_refuses = False, dev_open = False \<rparr>)"
proof -
  let ?A = "call_args None ''#'' (Some password_map) None None None True None init_session"
  let ?st = "loop_start scripted True init_session (new_device [Inr ''Password: #''] [])"
  let ?w1 = "\<lparr> dev_script = [], dev_replies = [], dev_clock = 1 / 10, dev_sent = [],
               dev_refuses = False, dev_open = False \<rparr>"
  let ?w2 = "\<lparr> dev_script = [], dev_replies = [], dev_clock = 1 / 10,
               dev_sent = [''secret''], dev_refuses = False, dev_open = False \<rparr>"
  let ?st1 = "?st\<lparr>world := ?w1,
                   output_str := output_str ?st @ normalize_buffer scripted ''Password: #''\<rparr>"
  let ?st2 = "?st1\<lparr>retries_count := 0\<rparr>"
  have h1: "arg_retries ?A = 0 \<or> retries_count ?st < arg_retries ?A"
    by (simp add: call_args_def loop_start_def or_default_def init_session_def)
  have h2: "receive_all scripted (sess ?st) (arg_timeout ?A) (world ?st) =
              Some (Inr ''Password: #'', ?w1)"
    by code_simp
  have h3: "remove_command scripted (arg_command ?A) ?st1 = Inr ?st1"
    by (simp add: remove_command_def call_args_def)
  have h4: "match_prompt scripted (arg_expected_string ?A) (output_str ?st2)"
    by code_simp
  have h5: "arg_action_map ?A (output_str ?st2) (arg_check_action_loop_detector ?A)
              (action_loop_detector ?st2) (world ?st2) = (Inr True, (), ?w2)"
    by code_simp
  have out: "output_str ?st2 = ''Password: #''" "output_list ?st = []" "sess ?st2 = init_session"
    by code_simp+
  from prompt_and_action_append_twice [OF h1 h2 h3 refl h4 h5, of "[]"]
  have "expect_loop scripted ?A ?st =
          Some (Inr [''Password: #'', ''Password: #''], init_session, ?w2)"
    by (simp only: out append_Nil)
  moreover have "finish scripted [] [''Password: #'', ''Password: #''] (init_session, ?w2) =
      Some (Inr ''Password: #Password: #'', init_session,
         \<lparr> dev_script = [], dev_replies = [], dev_clock = 1 / 5,
           dev_sent = [''secret''], dev_refuses = False, dev_open = False \<rparr>)"
    by code_simp
  ultimately show ?thesis
    by (simp add: hardware_expect_def send_command_def call_args_def)
qed

subsection \<open>A transport that stays silent\<close>

text \<open>
  On a transport whose reads all end in one of the two read signals, and whose clock
  moves on by at least \<open>\<delta>\<close> with every read, \<^verbatim>\<open>_receive_all\<close> returns: it raises
  \<open>ExpectedSessionException\<close>, and by then more than the timeout has passed since it
  started.
\<close>

lemma receive_all_loop_silent_bounded:
  assumes pos: "0 < \<delta>"
    and clock: "\<And>w. time_time E w = (clk w, w)"
    and quiet: "\<And>w. quiet w \<Longrightarrow>
                  \<exists>e w1. receive E (1 / 10) w = (Inl e, w1) \<and> is_read_signal e \<and>
                         quiet w1 \<and> clk w + \<delta> \<le> clk w1"
  shows "quiet w \<Longrightarrow> start_time + tmo - clk w < of_nat k * \<delta> \<Longrightarrow>
         \<exists>w2. receive_all_loop E tmo start_time [] w =
                Some (Inl (ExpectedSessionException ''Socket closed by timeout''), w2) \<and>
              tmo < clk w2 - start_time"
proof (induction k arbitrary: w)
  case 0
  from quiet [OF 0(1)] obtain e w1
    where r: "receive E (1 / 10) w = (Inl e, w1)" "is_read_signal e" "quiet w1"
      "clk w + \<delta> \<le> clk w1" by blast
  from 0(2) pos r(4) have "clk w1 - start_time > tmo" by simp
  with r clock show ?case
    by (subst receive_all_loop.simps) simp
next
  case (Suc k)
  from quiet [OF Suc.prems(1)] obtain e w1
    where r: "receive E (1 / 10) w = (Inl e, w1)" "is_read_signal e" "quiet w1"
      "clk w + \<delta> \<le> clk w1" by blast
  show ?case
  proof (cases "clk w1 - start_time > tmo")
    case True
    with r clock show ?thesis
      by (subst receive_all_loop.simps) simp
  next
    case False
    from Suc.prems(2) r(4) have "start_time + tmo - clk w1 < of_nat k * \<delta>"
      by (simp add: algebra_simps)
    from Suc.IH [OF r(3) this] obtain w2
      where "receive_all_loop E tmo start_time [] w1 =
               Some (Inl (ExpectedSessionException ''Socket closed by timeout''), w2)"
        and "tmo < clk w2 - start_time" by blast
    with False r clock show ?thesis
      by (subst receive_all_loop.simps) simp
  qed
qed

lemma receive_all_silent:
  assumes pos: "0 < \<delta>"
    and clock: "\<And>w. time_time E w = (clk w, w)"
    and quiet: "\<And>w. quiet w \<Longrightarrow>
                  \<exists>e w1. receive E (1 / 10) w = (Inl e, w1) \<and> is_read_signal e \<and>
                         quiet w1 \<and> clk w + \<delta> \<le> clk w1"
    and w: "quiet w"
  shows "\<exists>w2. receive_all E s tmo w =
                Some (Inl (ExpectedSessionException ''Socket closed by timeout''), w2) \<and>
              or_default tmo (self_timeout s) < clk w2 - clk w"
proof -
  from ex_less_of_nat_mult [OF pos, of "or_default tmo (self_timeout s)"]
  obtain k where "or_default tmo (self_timeout s) < of_nat k * \<delta>" by blast
  then have "clk w + or_default tmo (self_timeout s) - clk w < of_nat k * \<delta>" by simp
  from receive_all_loop_silent_bounded [of \<delta> E clk quiet, OF pos clock quiet w this]
  show ?thesis by (simp add: receive_all_def clock)
qed

text \<open>
  Claim C3, as amended.  In a call in which clearing the buffer and sending the command
  return, against a transport that stays silent from then on, with a prompt pattern
  that is not empty and a retry limit in force that is not negative: the read signals
  do not reach the caller, and the call fails with \<open>ExpectedSessionException\<close>, "Socket
  closed by timeout", raised by the first \<^verbatim>\<open>_receive_all\<close> of the loop when more than
  the read timeout (the argument, or the session's when it is \<^verbatim>\<open>None\<close> or 0) has passed
  since the command was sent; the session is as it was.
\<close>

theorem silent_transport_times_out:
  assumes "0 < \<delta>"
    and "\<And>w. time_time E w = (clk w, w)"
    and "\<And>w. quiet w \<Longrightarrow>
            \<exists>e w1. receive E (1 / 10) w = (Inl e, w1) \<and> is_read_signal e \<and>
                   quiet w1 \<and> clk w + \<delta> \<le> clk w1"
    and "send_command E s command w = Some (Inr u, w1)"
    and "quiet w1"
    and "expected_string \<noteq> []"
    and "0 \<le> or_default retries (self_max_loop_retries s)"
  shows "\<exists>w2. hardware_expect E command expected_string action_map error_map tmo retries
                check_detector empty_loop_timeout remove_echo (s, w) =
              Some (Inl (ExpectedSessionException ''Socket closed by timeout''), s, w2) \<and>
              or_default tmo (self_timeout s) < clk w2 - clk w1"
proof -
  let ?A = "call_args command expected_string action_map error_map tmo retries
              check_detector empty_loop_timeout s"
  let ?st = "loop_start E remove_echo s w1"
  from receive_all_silent [of \<delta> E clk quiet w1 s tmo, OF assms(1,2,3,5)] obtain w2
    where r: "receive_all E s tmo w1 =
                Some (Inl (ExpectedSessionException ''Socket closed by timeout''), w2)"
      and late: "or_default tmo (self_timeout s) < clk w2 - clk w1" by blast
  have g: "arg_retries ?A = 0 \<or> retries_count ?st < arg_retries ?A"
    using assms(7) by (auto simp: call_args_def loop_start_def)
  have f: "sess ?st = s" "world ?st = w1" "arg_timeout ?A = tmo"
    by (simp_all add: call_args_def loop_start_def)
  have "expect_loop E ?A ?st =
          Some (Inl (ExpectedSessionException ''Socket closed by timeout''), s, w2)"
    using g r f by (subst expect_loop.simps) simp
  with assms(4,6) late show ?thesis
    by (simp add: hardware_expect_def)
qed

text \<open>
  The scripted device with nothing to say, a call without a command and the timeout of
  the session, 30 seconds.
\<close>

theorem silent_transport_times_out_witness:
  "\<exists>w2. hardware_expect scripted None ''#'' None None None None True None True
           (init_session, new_device [] []) =
         Some (Inl (ExpectedSessionException ''Socket closed by timeout''), init_session, w2) \<and>
         30 < dev_clock w2 - dev_clock (new_device [] [])"
proof -
  have h1: "(0::rat) < 1 / 10" by simp
  have h2: "\<And>w. time_time scripted w = (dev_clock w, w)"
    by (simp add: scripted_def)
  have h3: "\<And>w. dev_script w = [] \<Longrightarrow>
            \<exists>e w1. receive scripted (1 / 10) w = (Inl e, w1) \<and> is_read_signal e \<and>
                   dev_script w1 = [] \<and> dev_clock w + 1 / 10 \<le> dev_clock w1"
    by (simp add: scripted_def dev_receive_def is_read_signal_def)
  have h4: "send_command scripted init_session None (new_device [] []) =
              Some (Inr (), new_device [] [])"
    by (simp add: send_command_def)
  have h5: "dev_script (new_device [] []) = []" by (simp add: new_device_def)
  have h6: "''#'' \<noteq> []" by simp
  have h7: "0 \<le> or_default None (self_max_loop_retries init_session)"
    by (simp add: or_default_def init_session_def)
  have t: "or_default None (self_timeout init_session) = 30"
    by (simp add: or_default_def init_session_def)
  from silent_transport_times_out [of "1 / 10" scripted dev_clock "\<lambda>w. dev_script w = []",
      OF h1 h2 h3 h4 h5 h6 h7, of None None None True None True]
  show ?thesis by (simp only: t)
qed

text \<open>
  The claim as it stands fails on a silent device and a limit of two retries: the call
  ends after the timeout of a fifth of a second with \<open>ExpectedSessionException\<close>, not
  with \<open>SessionLoopLimitException\<close>.
\<close>

theorem silent_transport_counterexample:
  "hardware_expect scripted None ''#'' None None (Some (1 / 5)) (Some 2) True None True
     (init_session, new_device [] []) =
   Some (Inl (ExpectedSessionException ''Socket closed by timeout''), init_session,
         \<lparr> dev_script = [], dev_replies = [], dev_clock = 3 / 10, dev_sent = [],
           dev_refuses = False, dev_open = False \<rparr>)"
  by code_simp

subsection \<open>The retry limit\<close>








subsection \<open>Removing the echo of the command\<close>

text \<open>
  Claim C5.  The device echoes the command \<^verbatim>\<open>ls\<close> and shows a line that holds \<^verbatim>\<open>ls\<close>
  again, then the prompt.  The claim has the call return the output with the echo
  removed and the later \<^verbatim>\<open>ls\<close> in place.  The call raises instead: the command is not
  in \<^verbatim>\<open>_command_patterns\<close>, and the \<^verbatim>\<open>re.sub\<close> of line 160 refuses its replacement
  \<^verbatim>\<open>'\s+'\<close> before the pattern of the echo exists.
\<close>

theorem echo_removal_raises:
  "hardware_expect scripted (Some ''ls'') ''#'' None None None None True None True
     (init_session,
      new_device [] [[Inr (''ls'' @ [CHR 0x0A] @ ''file ls'' @ [CHR 0x0A] @ ''#'')]]) =
   Some (Inl (OtherException ''re.error: bad escape''), init_session,
         \<lparr> dev_script = [], dev_replies = [], dev_clock = 1 / 5,
           dev_sent = [''ls'' @ [CHR 0x0D]], dev_refuses = False, dev_open = False \<rparr>)"
  by code_simp

subsection \<open>The counter of existing sessions\<close>

lemma only_one:
  assumes "length (filter P ps) \<le> 1" and "t < length ps" and "P (ps ! t)"
    and "u < length ps" and "u \<noteq> t"
  shows "\<not> P (ps ! u)"
proof
  assume "P (ps ! u)"
  with assms have "{t, u} \<subseteq> {i. i < length ps \<and> P (ps ! i)}" by simp
  then have "card {t, u} \<le> card {i. i < length ps \<and> P (ps ! i)}"
    by (intro card_mono) simp_all
  with assms(1,5) show False by (simp add: length_filter_conv_card)
qed

lemma list_all_update:
  "list_all P ps \<Longrightarrow> P p \<Longrightarrow> list_all P (ps[t := p])"
  by (auto simp: list_all_iff dest: set_update_subset_insert [THEN subsetD])

lemma place_ok_above:
  "place_ok c p \<Longrightarrow> 1 \<le> v \<Longrightarrow> place_ok v p"
  by (cases p) simp_all

lemma place_ok_not_decrementing:
  "place_ok c p \<Longrightarrow> \<not> decrementing p \<Longrightarrow> place_ok v p"
  by (cases p) simp_all

lemma counter_start_invariant: "counter_invariant (counter_start n k)"
  by (simp add: counter_invariant_def counter_start_def init_manager_def list_all_iff)

lemma counter_step_invariant:
  assumes inv: "counter_invariant r" and ap: "decrements_apart r"
    and st: "counter_step t mv r = Some r1"
  shows "counter_invariant r1"
proof -
  let ?c = "existing_sessions (counter_manager r)"
  let ?ps = "counter_places r"
  from st have t: "t < length ?ps" by (simp add: counter_step_def split: if_splits)
  from inv have c: "0 \<le> ?c" and ok: "list_all (place_ok ?c) ?ps"
    by (simp_all add: counter_invariant_def)
  from ok t have okt: "place_ok ?c (?ps ! t)" by (simp add: list_all_length)
  have same: "counter_invariant (move_to t p r)" if "place_ok ?c p" for p
    using c ok that by (simp add: counter_invariant_def move_to_def list_all_update)
  have up: "counter_invariant (move_to t Away (write_counter v r))" if "1 \<le> v" for v
  proof -
    from ok that have "list_all (place_ok v) ?ps"
      by (auto simp: list_all_iff intro: place_ok_above)
    with that show ?thesis
      by (simp add: counter_invariant_def move_to_def write_counter_def list_all_update)
  qed
  have down: "counter_invariant (move_to t Away (write_counter v r))"
    if "?ps ! t = AtWriteDown v" for v
  proof -
    from okt that have v: "0 \<le> v" by simp
    have "place_ok v ((?ps[t := Away]) ! u)" if u: "u < length ?ps" for u
    proof (cases "u = t")
      case True
      with t show ?thesis by simp
    next
      case False
      from ap have "length (filter decrementing ?ps) \<le> 1" by (simp add: decrements_apart_def)
      from only_one [OF this t _ u False] \<open>?ps ! t = AtWriteDown v\<close>
      have "\<not> decrementing (?ps ! u)" by simp
      moreover from ok u have "place_ok ?c (?ps ! u)" by (simp add: list_all_length)
      ultimately have "place_ok v (?ps ! u)" by (rule place_ok_not_decrementing [rotated])
      with False show ?thesis by simp
    qed
    then have "list_all (place_ok v) (?ps[t := Away])" by (simp add: list_all_length)
    with v show ?thesis
      by (simp add: counter_invariant_def move_to_def write_counter_def)
  qed
  show ?thesis
  proof (cases mv)
    case CallDecrement
    with st t same [of AtTest] show ?thesis
      by (auto simp: counter_step_def split: counter_place.splits)
  next
    case CallIncrement
    with st t same [of AtReadUp] show ?thesis
      by (auto simp: counter_step_def split: counter_place.splits)
  next
    case Go
    show ?thesis
    proof (cases "?ps ! t")
      case Away
      with Go st t show ?thesis by (simp add: counter_step_def)
    next
      case AtTest
      with Go st t same [of AtReadDown] same [of Away] show ?thesis
        by (auto simp: counter_step_def split: if_splits)
    next
      case AtReadDown
      with okt have "1 \<le> ?c" by simp
      with AtReadDown Go st t same [of "AtWriteDown (?c - 1)"] show ?thesis
        by (auto simp: counter_step_def)
    next
      case (AtWriteDown v)
      with Go st t down [of v] show ?thesis by (auto simp: counter_step_def)
    next
      case AtReadUp
      with c Go st t same [of "AtWriteUp (?c + 1)"] show ?thesis
        by (auto simp: counter_step_def)
    next
      case (AtWriteUp v)
      with okt have "1 \<le> v" by simp
      with AtWriteUp Go st t up [of v] show ?thesis by (auto simp: counter_step_def)
    qed
  qed
qed

lemma counter_steps_invariant:
  "counter_invariant r \<Longrightarrow> apart ms r \<Longrightarrow> counter_steps ms r = Some r1 \<Longrightarrow>
   counter_invariant r1"
proof (induction ms arbitrary: r)
  case Nil
  then show ?case by simp
next
  case (Cons m ms)
  obtain t mv where m: "m = (t, mv)" by (cases m)
  from Cons.prems(3) m obtain r2
    where s: "counter_step t mv r = Some r2" and rest: "counter_steps ms r2 = Some r1"
    by (auto split: option.splits)
  from Cons.prems(2) m s have ap: "decrements_apart r" and ap2: "apart ms r2" by simp_all
  from counter_step_invariant [OF Cons.prems(1) ap s] have "counter_invariant r2" .
  from Cons.IH [OF this ap2 rest] show ?case .
qed

text \<open>
  Claim C10, as amended.  After any schedule of steps of threads in
  \<^verbatim>\<open>increment_sessions_count\<close> and \<^verbatim>\<open>decrement_sessions_count\<close> that keeps the
  decrements apart (increments may overlap with anything), the counter of a new manager
  is not negative; and at a counter of zero a call of \<^verbatim>\<open>decrement_sessions_count\<close> is the
  test of line 149 alone and leaves everything as it is.
\<close>

theorem counter_nonneg_decrements_apart:
  assumes "counter_steps ms (counter_start n k) = Some r"
    and "apart ms (counter_start n k)"
  shows "0 \<le> existing_sessions (counter_manager r) \<and>
         (\<forall>t. t < length (counter_places r) \<and> counter_places r ! t = Away \<and>
              existing_sessions (counter_manager r) = 0 \<longrightarrow>
              counter_steps [(t, CallDecrement), (t, Go)] r = Some r)"
proof -
  from counter_steps_invariant [OF counter_start_invariant assms(2,1)]
  have "0 \<le> existing_sessions (counter_manager r)" by (simp add: counter_invariant_def)
  moreover have "counter_steps [(t, CallDecrement), (t, Go)] r = Some r"
    if "t < length (counter_places r)" "counter_places r ! t = Away"
      "existing_sessions (counter_manager r) = 0" for t
  proof -
    from that(2) have "(counter_places r)[t := Away] = counter_places r"
      by (metis list_update_id)
    with that show ?thesis by (simp add: counter_step_def move_to_def)
  qed
  ultimately show ?thesis by blast
qed

text \<open>
  The schedule with the lost increment: the decrements are apart, the counter ends at
  zero, and a further decrement changes nothing.
\<close>

theorem counter_nonneg_decrements_apart_witness:
  "counter_steps lost_update (counter_start 2 2) =
     Some \<lparr> counter_manager =
              \<lparr> max_connections = 2, session_pool = [], existing_sessions = 0 \<rparr>,
            counter_places = [Away, Away] \<rparr> \<and>
   apart lost_update (counter_start 2 2) \<and>
   counter_steps [(1, CallDecrement), (1, Go)]
     \<lparr> counter_manager = \<lparr> max_connections = 2, session_pool = [], existing_sessions = 0 \<rparr>,
       counter_places = [Away, Away] \<rparr> =
     Some \<lparr> counter_manager =
              \<lparr> max_connections = 2, session_pool = [], existing_sessions = 0 \<rparr>,
            counter_places = [Away, Away] \<rparr>"
proof -
  let ?r = "\<lparr> counter_manager =
               \<lparr> max_connections = 2, session_pool = [], existing_sessions = 0 \<rparr>,
             counter_places = [Away, Away] \<rparr>"
  have h1: "counter_steps lost_update (counter_start 2 2) = Some ?r" by code_simp
  have h2: "apart lost_update (counter_start 2 2)" by code_simp
  have h3: "1 < length (counter_places ?r) \<and> counter_places ?r ! 1 = Away \<and>
            existing_sessions (counter_manager ?r) = 0" by simp
  from counter_nonneg_decrements_apart [OF h1 h2] h3
  have "counter_steps [(1, CallDecrement), (1, Go)] ?r = Some ?r" by blast
  with h1 h2 show ?thesis by blast
qed

text \<open>
  The claim as it stands fails when two decrements overlap: both threads pass the test
  of line 149 at a counter of 1, and the second subtraction of line 150 brings the
  counter to -1.
\<close>

theorem overlapping_decrements_counterexample:
  "counter_steps two_decrements (counter_start 2 2) =
     Some \<lparr> counter_manager =
              \<lparr> max_connections = 2, session_pool = [], existing_sessions = - 1 \<rparr>,
            counter_places = [Away, Away] \<rparr>"
  by code_simp

subsection \<open>The pool under its threads\<close>











end
